theory Spec2Isabelle
  imports Complex_Main
begin

section \<open>Wisp: scoring, retrieval and gateway, embedded from the Python sources\<close>

text \<open>
  Python floats are read as real numbers throughout: rounding, overflow of
  \<^verbatim>\<open>math.exp\<close> and the float product \<^verbatim>\<open>len * 0.99\<close> are idealised. Every
  exception the sources can raise on the modelled paths is a value of \<open>py_error\<close>
  (\<open>OperationalError\<close> is \<^verbatim>\<open>sqlite3.OperationalError\<close>), or of
  \<open>exn\<close> in the invocation gateway, where the handlers tell timeouts from other exceptions.
\<close>

datatype py_error = ValueError | IndexError | KeyError | OperationalError

subsection \<open>Library functions used by the sources\<close>

text \<open>\<^verbatim>\<open>math.log1p(x)\<close> raises ValueError (math domain error) for \<open>x \<le> -1\<close>.\<close>

definition math_log1p :: "real \<Rightarrow> py_error + real" where
  "math_log1p x = (if x \<le> -1 then Inl ValueError else Inr (ln (1 + x)))"

text \<open>
  The clock stands for \<^verbatim>\<open>datetime.fromisoformat(p.replace('Z', '+00:00'))\<close> followed by
  \<^verbatim>\<open>(now - date).days\<close>: the whole days elapsed since the timestamp, or \<open>None\<close> when the
  parse or the subtraction raises.
\<close>

type_synonym clock = "string \<Rightarrow> int option"

subsection \<open>Backlink edge score (enrich.py)\<close>







subsection \<open>Backlink score normalisation (enrich.py, compute_backlink_scores, stage 3)\<close>

text \<open>Running a fallible step over a list stops at the first exception.\<close>

fun traverse :: "('a \<Rightarrow> py_error + 'b) \<Rightarrow> 'a list \<Rightarrow> py_error + 'b list" where
  "traverse f [] = Inr []"
| "traverse f (x # xs) =
     (case f x of
        Inl e \<Rightarrow> Inl e
      | Inr y \<Rightarrow> (case traverse f xs of Inl e \<Rightarrow> Inl e | Inr ys \<Rightarrow> Inr (y # ys)))"

text \<open>List indexing with a non-negative index; out of range raises IndexError.\<close>

definition py_index :: "'a list \<Rightarrow> nat \<Rightarrow> py_error + 'a" where
  "py_index xs i = (if i < length xs then Inr (xs ! i) else Inl IndexError)"

text \<open>\<^verbatim>\<open>int(len(xs) * 0.99)\<close>, with the float product read exactly.\<close>

definition q99_position :: "nat \<Rightarrow> nat" where
  "q99_position n = (99 * n) div 100"

definition backlink_q99 :: "real list \<Rightarrow> py_error + real" where
  "backlink_q99 all_log_raws =
     (if all_log_raws \<noteq> [] then
        (let sorted_log_raws = sort all_log_raws
         in case py_index sorted_log_raws (q99_position (length sorted_log_raws)) of
              Inl e \<Rightarrow> Inl e
            | Inr v \<Rightarrow> Inr (max v (1 / 10 ^ 6)))
      else Inr 1)"

record backlink_score_row =
  bs_server_name :: string
  bs_raw_score :: real
  bs_normalized_score :: real

definition normalize_one :: "real \<Rightarrow> string \<times> real \<Rightarrow> py_error + backlink_score_row" where
  "normalize_one q99_log_raw res =
     (case res of (server_name, raw_score) \<Rightarrow>
        (case math_log1p raw_score of
           Inl e \<Rightarrow> Inl e
         | Inr log_raw \<Rightarrow>
             (let normalized = (if raw_score > 0 then min 1 (log_raw / q99_log_raw) else 0)
              in Inr \<lparr>bs_server_name = server_name, bs_raw_score = raw_score,
                       bs_normalized_score = normalized\<rparr>)))"

text \<open>
  \<open>server_raw_results\<close> is the dict of stage 2 in insertion order, reduced to the
  server name and its raw score; the result is the list of rows written to
  \<^verbatim>\<open>backlink_scores\<close>.
\<close>

definition normalize_backlink_scores ::
  "(string \<times> real) list \<Rightarrow> py_error + backlink_score_row list" where
  "normalize_backlink_scores server_raw_results =
     (case traverse math_log1p (filter (\<lambda>r. r > 0) (map snd server_raw_results)) of
        Inl e \<Rightarrow> Inl e
      | Inr all_log_raws \<Rightarrow>
          (case backlink_q99 all_log_raws of
             Inl e \<Rightarrow> Inl e
           | Inr q99_log_raw \<Rightarrow> traverse (normalize_one q99_log_raw) server_raw_results))"

text \<open>The value \<open>normalize_one\<close> stores when it does not raise.\<close>

definition normalized_of :: "real \<Rightarrow> real \<Rightarrow> real" where
  "normalized_of q r = (if r > 0 then min 1 (ln (1 + r) / q) else 0)"

subsection \<open>Market ranking (enrich.py, compute_market_rankings)\<close>

text \<open>\<^verbatim>\<open>math.log10(x)\<close> raises ValueError for \<open>x \<le> 0\<close>.\<close>

definition math_log10 :: "real \<Rightarrow> py_error + real" where
  "math_log10 x = (if x \<le> 0 then Inl ValueError else Inr (log 10 x))"

text \<open>\<^verbatim>\<open>str.lower()\<close> on ASCII letters; other characters are left as they are.\<close>

definition lower_char :: "char \<Rightarrow> char" where
  "lower_char c =
     (case map_of (zip ''ABCDEFGHIJKLMNOPQRSTUVWXYZ'' ''abcdefghijklmnopqrstuvwxyz'') c of
        None \<Rightarrow> c
      | Some d \<Rightarrow> d)"

definition lower :: "string \<Rightarrow> string" where
  "lower s = map lower_char s"

definition TRUSTED_ORGS :: "string list" where
  "TRUSTED_ORGS =
     [''modelcontextprotocol'', ''anthropic'', ''google'', ''openai'', ''meta-llama'',
      ''microsoft'', ''facebook'', ''docker'', ''hashicorp'', ''aws'', ''cloudflare'',
      ''vercel'', ''supabase'', ''mongodb'', ''pinecone'', ''elastic'']"

text \<open>
  One row of the SELECT that feeds the ranker, after its COALESCEs: \<open>sr_usage_raw\<close> is
  the backlink raw score (0 without a \<^verbatim>\<open>backlink_scores\<close> row), \<open>sr_downloads\<close> the summed
  weekly downloads (0 without package rows), \<open>sr_auth_count\<close> the number of secret
  environment variables, \<open>sr_last_push\<close> and \<open>sr_repo_owner\<close> are NULL without a
  \<^verbatim>\<open>github_signals\<close> row.
\<close>

record signal_row =
  sr_name :: string
  sr_usage_raw :: real
  sr_stars :: int
  sr_forks :: int
  sr_last_push :: "string option"
  sr_downloads :: int
  sr_auth_count :: nat
  sr_repo_owner :: "string option"

record raw_datum =
  rd_name :: string
  rd_u_raw :: real
  rd_r_raw :: real
  rd_activity :: real
  rd_c_raw :: real
  rd_is_zero_auth :: bool
  rd_is_verified :: bool

record market_ranking =
  mr_server_name :: string
  mr_total_score :: real
  mr_usage_score :: real
  mr_reputation_score :: real
  mr_activity_score :: real
  mr_reach_score :: real
  mr_is_zero_auth :: bool
  mr_is_verified :: bool

text \<open>The first loop: the raw pillar signals of one row.\<close>

definition raw_signals :: "clock \<Rightarrow> signal_row \<Rightarrow> py_error + raw_datum" where
  "raw_signals clk r =
     (case math_log1p (sr_usage_raw r) of
        Inl e \<Rightarrow> Inl e
      | Inr u_raw \<Rightarrow>
     (case math_log10 (1 + real_of_int (sr_stars r)) of
        Inl e \<Rightarrow> Inl e
      | Inr ls \<Rightarrow>
     (case math_log10 (1 + real_of_int (sr_forks r)) of
        Inl e \<Rightarrow> Inl e
      | Inr lf \<Rightarrow>
     (let rep_raw = ls + lf;
          activity =
            (case sr_last_push r of
               None \<Rightarrow> 0.5
             | Some pushed_at \<Rightarrow>
                 if pushed_at = [] then 0.5
                 else (case clk pushed_at of
                         None \<Rightarrow> 0.5
                       | Some days \<Rightarrow> exp (- 0.5 * (real_of_int days / 365))))
      in case math_log10 (1 + real_of_int (sr_downloads r)) of
           Inl e \<Rightarrow> Inl e
         | Inr reach_raw \<Rightarrow>
             Inr \<lparr>rd_name = sr_name r, rd_u_raw = u_raw, rd_r_raw = rep_raw,
                  rd_activity = activity, rd_c_raw = reach_raw,
                  rd_is_zero_auth = (sr_auth_count r = 0),
                  rd_is_verified =
                    (lower (case sr_repo_owner r of None \<Rightarrow> [] | Some ow \<Rightarrow> ow)
                       \<in> set TRUSTED_ORGS)\<rparr>))))"

definition get_q99 :: "real list \<Rightarrow> py_error + real" where
  "get_q99 vals =
     (if vals = [] then Inr 1
      else (let sorted_v = sort vals
            in case py_index sorted_v (q99_position (length sorted_v)) of
                 Inl e \<Rightarrow> Inl e
               | Inr v \<Rightarrow> Inr (max v (1 / 10 ^ 6))))"

text \<open>The second loop: normalise, combine, add the bonuses, clamp, and store.\<close>

definition rank_one :: "real \<Rightarrow> real \<Rightarrow> real \<Rightarrow> raw_datum \<Rightarrow> market_ranking" where
  "rank_one q99_u q99_r q99_c d =
     (let u_norm = min 1 (rd_u_raw d / q99_u);
          r_norm = min 1 (rd_r_raw d / q99_r);
          a_norm = rd_activity d;
          c_norm = min 1 (rd_c_raw d / q99_c);
          composite = (0.45 * u_norm) + (0.30 * r_norm) + (0.15 * a_norm) + (0.10 * c_norm);
          composite = (if rd_is_zero_auth d then composite + 0.05 else composite);
          composite = (if rd_is_verified d then composite + 0.10 else composite);
          final_score = max 0 (min 1 composite)
      in \<lparr>mr_server_name = rd_name d, mr_total_score = final_score, mr_usage_score = u_norm,
          mr_reputation_score = r_norm, mr_activity_score = a_norm, mr_reach_score = c_norm,
          mr_is_zero_auth = rd_is_zero_auth d, mr_is_verified = rd_is_verified d\<rparr>)"

definition compute_market_rankings ::
  "clock \<Rightarrow> signal_row list \<Rightarrow> py_error + market_ranking list" where
  "compute_market_rankings clk rows =
     (case traverse (raw_signals clk) rows of
        Inl e \<Rightarrow> Inl e
      | Inr raw_data \<Rightarrow>
     (case get_q99 (map rd_u_raw raw_data) of
        Inl e \<Rightarrow> Inl e
      | Inr q99_u \<Rightarrow>
     (case get_q99 (map rd_r_raw raw_data) of
        Inl e \<Rightarrow> Inl e
      | Inr q99_r \<Rightarrow>
     (case get_q99 (map rd_c_raw raw_data) of
        Inl e \<Rightarrow> Inl e
      | Inr q99_c \<Rightarrow> Inr (map (rank_one q99_u q99_r q99_c) raw_data)))))"

text \<open>
  Rows on which neither \<^verbatim>\<open>math.log1p\<close> nor \<^verbatim>\<open>math.log10\<close> raises: counts are
  non-negative and the raw backlink score is above \<open>-1\<close>.
\<close>

definition well_formed_row :: "signal_row \<Rightarrow> bool" where
  "well_formed_row r \<longleftrightarrow>
     -1 < sr_usage_raw r \<and> 0 \<le> sr_stars r \<and> 0 \<le> sr_forks r \<and> 0 \<le> sr_downloads r"

text \<open>The raw signals computed for a well-formed row.\<close>

definition signals_of :: "clock \<Rightarrow> signal_row \<Rightarrow> raw_datum \<Rightarrow> bool" where
  "signals_of clk r d \<longleftrightarrow> well_formed_row r \<and> raw_signals clk r = Inr d"

subsection \<open>Hybrid search (relevance.py, db.py)\<close>























subsection \<open>The store seen by the gateway (db.py) and JSON values\<close>

text \<open>
  Python dicts, lists, strings, numbers, booleans and \<^verbatim>\<open>None\<close> as they are serialised.
  \<open>json_loads\<close> stands for \<^verbatim>\<open>json.loads\<close>: \<open>None\<close> is a JSONDecodeError.
\<close>

datatype json =
    JNull
  | JBool bool
  | JInt int
  | JFloat real
  | JStr string
  | JArr "json list"
  | JObj "(string \<times> json) list"

type_synonym json_loads = "string \<Rightarrow> json option"

text \<open>
  The tables behind the view \<^verbatim>\<open>v_tools_full\<close>. Query results are read in table order.
\<close>

record tool_row =
  t_id :: int
  t_server_name :: string
  t_tool_name :: string
  t_title :: "string option"
  t_description :: "string option"
  t_input_schema :: "string option"

record server_row =
  s_name :: string
  s_description :: "string option"

record env_var_row =
  ev_server_name :: string
  ev_is_secret :: bool

record store =
  tools :: "tool_row list"
  servers :: "server_row list"
  environment_variables :: "env_var_row list"

record tool_full =
  vt_tool_id :: int
  vt_tool_name :: string
  vt_title :: "string option"
  vt_description :: "string option"
  vt_input_schema :: "string option"
  vt_server_name :: string
  vt_server_description :: "string option"
  vt_requires_auth :: bool

text \<open>
  \<^verbatim>\<open>tools t JOIN servers s ON t.server_name = s.name\<close>, with \<open>requires_auth\<close> the test that the
  server has a secret environment variable.
\<close>

definition v_tools_full :: "store \<Rightarrow> tool_full list" where
  "v_tools_full st =
     concat (map (\<lambda>t.
        map (\<lambda>s.
          \<lparr>vt_tool_id = t_id t, vt_tool_name = t_tool_name t, vt_title = t_title t,
           vt_description = t_description t, vt_input_schema = t_input_schema t,
           vt_server_name = s_name s, vt_server_description = s_description s,
           vt_requires_auth =
             (length (filter (\<lambda>ev. ev_server_name ev = s_name s \<and> ev_is_secret ev)
                        (environment_variables st)) > 0)\<rparr>)
          (filter (\<lambda>s. t_server_name t = s_name s) (servers st)))
        (tools st))"

subsection \<open>Listing the tools of a server (retriever.py, server.py)\<close>

definition parse_input_schema :: "json_loads \<Rightarrow> string option \<Rightarrow> json" where
  "parse_input_schema loads input_schema =
     (case input_schema of
        None \<Rightarrow> JNull
      | Some txt \<Rightarrow>
          if txt = [] then JNull
          else (case loads txt of None \<Rightarrow> JNull | Some v \<Rightarrow> v))"

definition json_text :: "string option \<Rightarrow> json" where
  "json_text x = (case x of None \<Rightarrow> JNull | Some s \<Rightarrow> JStr s)"

definition tool_dict :: "json_loads \<Rightarrow> tool_full \<Rightarrow> json" where
  "tool_dict loads db_r =
     JObj [(''tool_id'', JInt (vt_tool_id db_r)),
           (''name'', JStr (vt_tool_name db_r)),
           (''title'', json_text (vt_title db_r)),
           (''description'', json_text (vt_description db_r)),
           (''input_schema'', parse_input_schema loads (vt_input_schema db_r)),
           (''requires_auth'', JBool (vt_requires_auth db_r)),
           (''server'', JObj [(''name'', JStr (vt_server_name db_r)),
                             (''description'', json_text (vt_server_description db_r))])]"

definition get_tools_for_server :: "store \<Rightarrow> json_loads \<Rightarrow> string \<Rightarrow> json list" where
  "get_tools_for_server st loads server_name =
     map (tool_dict loads) (filter (\<lambda>vt. vt_server_name vt = server_name) (v_tools_full st))"

definition list_server_tools :: "store \<Rightarrow> json_loads \<Rightarrow> string \<Rightarrow> json" where
  "list_server_tools st loads server_name =
     (let tools = get_tools_for_server st loads server_name
      in JObj [(''server'', JStr server_name), (''tools'', JArr tools)])"

text \<open>Reading a field of a JSON object.\<close>

definition json_get :: "json \<Rightarrow> string \<Rightarrow> json option" where
  "json_get v k = (case v of JObj kvs \<Rightarrow> map_of kvs k | _ \<Rightarrow> None)"

text \<open>A store with one server and one tool.\<close>

definition echo_store :: store where
  "echo_store =
     \<lparr>tools = [\<lparr>t_id = 7, t_server_name = ''srv'', t_tool_name = ''echo'',
                 t_title = None, t_description = Some ''Echo the input'',
                 t_input_schema = None\<rparr>],
      servers = [\<lparr>s_name = ''srv'', s_description = None\<rparr>],
      environment_variables = []\<rparr>"

subsection \<open>Retrieval with paging and hydration (retriever.py)\<close>








subsection \<open>Enrichment status tracking (enrich.py)\<close>

text \<open>\<^verbatim>\<open>s.startswith(p)\<close>, \<^verbatim>\<open>needle in s\<close> and \<^verbatim>\<open>str(n)\<close>.\<close>

fun starts_with :: "string \<Rightarrow> string \<Rightarrow> bool" where
  "starts_with [] s = True"
| "starts_with (p # ps) [] = False"
| "starts_with (p # ps) (c # cs) = (p = c \<and> starts_with ps cs)"

fun contains_str :: "string \<Rightarrow> string \<Rightarrow> bool" where
  "contains_str needle [] = (needle = [])"
| "contains_str needle (c # cs) = (starts_with needle (c # cs) \<or> contains_str needle cs)"

function str_nat :: "nat \<Rightarrow> string" where
  "str_nat n =
     (if n < 10 then [char_of (48 + n)] else str_nat (n div 10) @ [char_of (48 + n mod 10)])"
  by pat_completeness auto
termination
  by (relation "measure id") auto

definition str_int :: "int \<Rightarrow> string" where
  "str_int i = (if i < 0 then CHR ''-'' # str_nat (nat (- i)) else str_nat (nat i))"

definition categorize_enrichment_failure ::
  "int option \<Rightarrow> string option \<Rightarrow> string \<times> string" where
  "categorize_enrichment_failure status_code error_message =
     (let by_code =
            (case status_code of
               None \<Rightarrow> None
             | Some sc \<Rightarrow>
                 if sc = 0 then None
                 else if sc = 404 then Some (''permanent_failure'', ''not_found_404'')
                 else if sc = 401 \<or> sc = 403 then Some (''permanent_failure'', ''auth_required'')
                 else if sc = 429 then Some (''transient_failure'', ''rate_limited'')
                 else if sc \<ge> 500
                   then Some (''transient_failure'', ''server_error_'' @ str_int sc)
                 else None);
          by_message =
            (case error_message of
               None \<Rightarrow> None
             | Some msg \<Rightarrow>
                 if msg = [] then None
                 else (let error_lower = lower msg
                       in if contains_str ''not found'' error_lower \<or> contains_str ''404'' error_lower
                            then Some (''permanent_failure'', ''not_found'')
                          else if contains_str ''does not exist'' error_lower
                            then Some (''permanent_failure'', ''does_not_exist'')
                          else if contains_str ''package not found'' error_lower
                            then Some (''permanent_failure'', ''package_not_found'')
                          else if contains_str ''repository not found'' error_lower
                            then Some (''permanent_failure'', ''repo_not_found'')
                          else if contains_str ''timeout'' error_lower
                            then Some (''transient_failure'', ''timeout'')
                          else if contains_str ''rate limit'' error_lower
                            then Some (''transient_failure'', ''rate_limited'')
                          else if contains_str ''connection'' error_lower
                            then Some (''transient_failure'', ''connection_error'')
                          else None))
      in case by_code of
           Some r \<Rightarrow> r
         | None \<Rightarrow> (case by_message of
                       Some r \<Rightarrow> r
                     | None \<Rightarrow> (''transient_failure'', ''unknown'')))"

text \<open>
  The tables the workers write. A row of \<^verbatim>\<open>enrichment_status\<close> is keyed by
  \<open>(server_name, enrichment_type)\<close>.
\<close>

record status_row =
  es_status :: string
  es_failure_reason :: "string option"
  es_last_attempted_at :: string
  es_retry_count :: int

record librariesio_data =
  dependents_count :: int
  dependent_repos_count :: int
  sourcerank :: "int option"

record github_data =
  gh_repo_owner :: string
  gh_repo_name :: string
  gh_stars :: int

record enrich_db =
  enrichment_status :: "string \<times> string \<Rightarrow> status_row option"
  package_downloads :: "string \<times> string \<times> string \<Rightarrow> int option"
  dependency_signals :: "string \<times> string \<Rightarrow> (string \<times> librariesio_data) option"
  github_signals :: "string \<Rightarrow> github_data option"

definition update_enrichment_status ::
  "string \<Rightarrow> enrich_db \<Rightarrow> string \<Rightarrow> string \<Rightarrow> bool \<Rightarrow> string option \<Rightarrow> enrich_db" where
  "update_enrichment_status now conn server_name enrichment_type success failure_reason =
     (let key = (server_name, enrichment_type)
      in if success then
           conn\<lparr>enrichment_status := (enrichment_status conn)(key \<mapsto>
                  \<lparr>es_status = ''success'', es_failure_reason = None,
                   es_last_attempted_at = now, es_retry_count = 0\<rparr>)\<rparr>
         else
           (case categorize_enrichment_failure None failure_reason of
              (status, reason) \<Rightarrow>
                conn\<lparr>enrichment_status := (enrichment_status conn)(key \<mapsto>
                       \<lparr>es_status = status, es_failure_reason = Some reason,
                        es_last_attempted_at = now,
                        es_retry_count =
                          (case enrichment_status conn key of
                             None \<Rightarrow> 1
                           | Some old \<Rightarrow> es_retry_count old + 1)\<rparr>)\<rparr>))"

text \<open>
  The candidate loops of the Docker, the libraries.io and the GitHub worker, over the
  candidates selected by their queries. The fetchers, the URL parser and the clock are
  parameters; progress output, sleeps and commits are left out.
\<close>

fun enrich_docker ::
  "(string \<Rightarrow> int option) \<Rightarrow> string \<Rightarrow> (string \<times> string) list \<Rightarrow> enrich_db \<Rightarrow> enrich_db"
  where
  "enrich_docker fetch_docker_pulls now [] conn = conn"
| "enrich_docker fetch_docker_pulls now ((server_name, image_name) # packages) conn =
     (case fetch_docker_pulls image_name of
        Some pulls \<Rightarrow>
          enrich_docker fetch_docker_pulls now packages
            (update_enrichment_status now
               (conn\<lparr>package_downloads :=
                       (package_downloads conn)((server_name, ''docker'', image_name) \<mapsto> pulls)\<rparr>)
               server_name ''docker'' True None)
      | None \<Rightarrow>
          enrich_docker fetch_docker_pulls now packages
            (update_enrichment_status now conn server_name ''docker'' False
               (Some ''image_not_found'')))"

definition platform_map :: "string \<Rightarrow> string" where
  "platform_map registry_type =
     (if registry_type = ''npm'' then ''npm''
      else if registry_type = ''pypi'' then ''pypi''
      else registry_type)"

fun enrich_dependents ::
  "(string \<Rightarrow> string \<Rightarrow> librariesio_data option) \<Rightarrow> string
     \<Rightarrow> (string \<times> string \<times> string) list \<Rightarrow> enrich_db \<Rightarrow> enrich_db" where
  "enrich_dependents fetch_librariesio_data now [] conn = conn"
| "enrich_dependents fetch_librariesio_data now
     ((server_name, package_name, registry_type) # packages) conn =
     (let platform = platform_map registry_type
      in case fetch_librariesio_data platform package_name of
           Some data \<Rightarrow>
             enrich_dependents fetch_librariesio_data now packages
               (conn\<lparr>dependency_signals :=
                       (dependency_signals conn)((server_name, package_name) \<mapsto> (platform, data))\<rparr>)
         | None \<Rightarrow>
             enrich_dependents fetch_librariesio_data now packages
               (update_enrichment_status now conn server_name ''dependents'' False
                  (Some ''package_not_found'')))"

fun enrich_github ::
  "(string \<Rightarrow> (string \<times> string) option) \<Rightarrow> (string \<times> string \<Rightarrow> int option)
     \<Rightarrow> (string \<times> string) list \<Rightarrow> enrich_db \<Rightarrow> enrich_db" where
  "enrich_github parse_github_url fetch_github_data [] conn = conn"
| "enrich_github parse_github_url fetch_github_data ((server_name, repo_url) # more_servers) conn =
     (case parse_github_url repo_url of
        None \<Rightarrow> enrich_github parse_github_url fetch_github_data more_servers conn
      | Some (owner, repo) \<Rightarrow>
          (case fetch_github_data (owner, repo) of
             Some stars \<Rightarrow>
               enrich_github parse_github_url fetch_github_data more_servers
                 (conn\<lparr>github_signals := (github_signals conn)(server_name \<mapsto>
                         \<lparr>gh_repo_owner = owner, gh_repo_name = repo, gh_stars = stars\<rparr>)\<rparr>)
           | None \<Rightarrow> enrich_github parse_github_url fetch_github_data more_servers conn))"

definition empty_db :: enrich_db where
  "empty_db = \<lparr>enrichment_status = Map.empty, package_downloads = Map.empty,
               dependency_signals = Map.empty, github_signals = Map.empty\<rparr>"

subsection \<open>Placeholder resolution (mcp_client.py)\<close>

text \<open>\<^verbatim>\<open>os.environ\<close> as a map from names to values.\<close>

type_synonym environ = "string \<Rightarrow> string option"

text \<open>
  One match of the pattern \<^verbatim>\<open>\${(?:input:)?([^}]+)}\<close> at the head of a string: the text up
  to the first closing brace must be non-empty; a leading \<^verbatim>\<open>input:\<close> is dropped from the
  name unless nothing would be left. The result is the name, the matched text and the rest.
\<close>

fun split_close :: "string \<Rightarrow> (string \<times> string) option" where
  "split_close [] = None"
| "split_close (c # cs) =
     (if c = CHR ''}'' then Some ([], cs)
      else (case split_close cs of None \<Rightarrow> None | Some (body, rest) \<Rightarrow> Some (c # body, rest)))"

definition match_placeholder :: "string \<Rightarrow> (string \<times> string \<times> string) option" where
  "match_placeholder s =
     (if starts_with ''${'' s then
        (case split_close (drop 2 s) of
           None \<Rightarrow> None
         | Some (body, rest) \<Rightarrow>
             if body = [] then None
             else (let var_name =
                         (if starts_with ''input:'' body \<and> drop 6 body \<noteq> []
                          then drop 6 body else body)
                   in Some (var_name, ''${'' @ body @ ''}'', rest)))
      else None)"

lemma split_close_length: "split_close s = Some (body, rest) \<Longrightarrow> length rest < length s"
  by (induction s arbitrary: body) (auto split: if_splits option.splits)

lemma match_placeholder_length:
  "match_placeholder s = Some (v, t, rest) \<Longrightarrow> length rest < length s"
  by (auto simp: match_placeholder_def Let_def split: if_splits option.splits
           dest!: split_close_length)

text \<open>\<^verbatim>\<open>re.sub(pattern, replace_match, data)\<close>: leftmost matches, left to right.\<close>

function re_sub :: "environ \<Rightarrow> string \<Rightarrow> string" where
  "re_sub env [] = []"
| "re_sub env (c # cs) =
     (case match_placeholder (c # cs) of
        None \<Rightarrow> c # re_sub env cs
      | Some (var_name, matched, rest) \<Rightarrow>
          (case env var_name of None \<Rightarrow> matched | Some val \<Rightarrow> val) @ re_sub env rest)"
  by pat_completeness auto
termination
  by (relation "measure (\<lambda>(env, s). length s)")
     (auto dest: match_placeholder_length)

definition resolve_str :: "environ \<Rightarrow> string \<Rightarrow> string" where
  "resolve_str env data =
     (if starts_with ''ENV:'' data then
        (case env (drop 4 data) of None \<Rightarrow> data | Some val \<Rightarrow> val)
      else re_sub env data)"

fun resolve_env_vars :: "environ \<Rightarrow> json \<Rightarrow> json" where
  "resolve_env_vars env (JObj kvs) =
     JObj (map (\<lambda>kv. (fst kv, resolve_env_vars env (snd kv))) kvs)"
| "resolve_env_vars env (JArr xs) = JArr (map (resolve_env_vars env) xs)"
| "resolve_env_vars env (JStr s) = JStr (resolve_str env s)"
| "resolve_env_vars env v = v"

text \<open>
  The names that \<^verbatim>\<open>resolve_env_vars\<close> looks up in the environment for a string: the text
  after \<^verbatim>\<open>ENV:\<close>, or the names of the placeholders that the substitution matches.
\<close>

function scan_names :: "string \<Rightarrow> string list" where
  "scan_names [] = []"
| "scan_names (c # cs) =
     (case match_placeholder (c # cs) of
        None \<Rightarrow> scan_names cs
      | Some (var_name, matched, rest) \<Rightarrow> var_name # scan_names rest)"
  by pat_completeness auto
termination
  by (relation "measure length") (auto dest: match_placeholder_length)

definition referenced_names :: "string \<Rightarrow> string list" where
  "referenced_names data =
     (if starts_with ''ENV:'' data then [drop 4 data] else scan_names data)"

text \<open>Two environments: a plain token, and a value that itself holds a placeholder.\<close>

definition token_env :: environ where
  "token_env = [''TOK'' \<mapsto> ''abc'']"

definition chained_env :: environ where
  "chained_env = [''A'' \<mapsto> ''${B}'', ''B'' \<mapsto> ''x'']"

subsection \<open>Invocation gateway (server.py)\<close>























section \<open>Theorems\<close>

subsection \<open>Edge score\<close>




subsection \<open>Backlink normalisation\<close>

lemma traverse_total:
  "(\<And>x. x \<in> set xs \<Longrightarrow> f x = Inr (g x)) \<Longrightarrow> traverse f xs = Inr (map g xs)"
  by (induction xs) auto

lemma q99_position_less: "0 < n \<Longrightarrow> q99_position n < n"
  by (simp add: q99_position_def)

lemma backlink_q99_value:
  "backlink_q99 ls =
     Inr (if ls = [] then 1 else max (sort ls ! q99_position (length ls)) (1 / 10 ^ 6))"
  by (simp add: backlink_q99_def py_index_def Let_def q99_position_less)

lemma backlink_q99_pos: "backlink_q99 ls = Inr q \<Longrightarrow> 0 < q"
  by (auto simp: backlink_q99_value split: if_splits)

lemma normalize_backlink_scores_value:
  assumes "\<forall>r \<in> snd ` set raws. -1 < r"
  shows "\<exists>q. backlink_q99 (map (\<lambda>r. ln (1 + r)) (filter (\<lambda>r. r > 0) (map snd raws))) = Inr q \<and>
     normalize_backlink_scores raws =
       Inr (map (\<lambda>(n, r). \<lparr>bs_server_name = n, bs_raw_score = r,
                         bs_normalized_score = normalized_of q r\<rparr>) raws)"
proof -
  let ?pos = "filter (\<lambda>r. r > 0) (map snd raws)"
  have logs: "traverse math_log1p ?pos = Inr (map (\<lambda>r. ln (1 + r)) ?pos)"
    by (rule traverse_total) (auto simp: math_log1p_def)
  obtain q where q: "backlink_q99 (map (\<lambda>r. ln (1 + r)) ?pos) = Inr q"
    by (simp add: backlink_q99_value)
  have "traverse (normalize_one q) raws =
        Inr (map (\<lambda>(n, r). \<lparr>bs_server_name = n, bs_raw_score = r,
                         bs_normalized_score = normalized_of q r\<rparr>) raws)"
  proof (rule traverse_total)
    fix x assume "x \<in> set raws"
    with assms have "-1 < snd x" by auto
    then show "normalize_one q x = Inr ((\<lambda>(n, r). \<lparr>bs_server_name = n, bs_raw_score = r,
                         bs_normalized_score = normalized_of q r\<rparr>) x)"
      by (cases x) (simp add: normalize_one_def math_log1p_def normalized_of_def)
  qed
  with logs q show ?thesis by (simp add: normalize_backlink_scores_def)
qed

lemma normalized_of_bounds: "0 < q \<Longrightarrow> 0 \<le> normalized_of q r \<and> normalized_of q r \<le> 1"
  by (auto simp: normalized_of_def)

lemma normalized_of_zero_iff: "0 < q \<Longrightarrow> normalized_of q r = 0 \<longleftrightarrow> r \<le> 0"
  by (auto simp: normalized_of_def min_def)

lemma normalized_of_mono:
  assumes "0 < q" "rb \<le> ra"
  shows "normalized_of q rb \<le> normalized_of q ra"
proof (cases "0 < rb")
  case True
  with assms have "ln (1 + rb) \<le> ln (1 + ra)" by simp
  with assms have "ln (1 + rb) / q \<le> ln (1 + ra) / q"
    by (simp add: divide_right_mono)
  then have "min 1 (ln (1 + rb) / q) \<le> min 1 (ln (1 + ra) / q)"
    by (intro min.mono order_refl)
  with True assms show ?thesis by (simp only: normalized_of_def) simp
next
  case False
  with assms show ?thesis
    using normalized_of_bounds [of q ra] by (simp add: normalized_of_def)
qed

text \<open>
  C6. Backlink normalisation is bounded and monotone. For raw scores above \<open>-1\<close> (where
  \<^verbatim>\<open>math.log1p\<close> is defined) the scoring run stores one row per server, and every stored
  normalized score lies in \<open>[0, 1]\<close>, is 0 exactly when the raw score is not positive, is
  \<open>min(1, log1p(raw) / q)\<close> otherwise, with \<open>q\<close> the entry at position \<open>\<lfloor>0.99 * |L|\<rfloor>\<close> of the
  sorted \<open>log1p\<close> values of the positive raw scores, clamped to at least \<open>1e-6\<close>, and a
  larger raw score never gets a smaller normalized score.
\<close>

theorem backlink_normalisation_bounded_monotone:
  assumes "\<forall>r \<in> snd ` set raws. -1 < r"
  shows "\<exists>rows. normalize_backlink_scores raws = Inr rows \<and>
           map (\<lambda>a. (bs_server_name a, bs_raw_score a)) rows = raws \<and>
           (\<forall>a \<in> set rows.
              0 \<le> bs_normalized_score a \<and> bs_normalized_score a \<le> 1 \<and>
              (bs_normalized_score a = 0 \<longleftrightarrow> bs_raw_score a \<le> 0) \<and>
              (0 < bs_raw_score a \<longrightarrow>
                 bs_normalized_score a =
                   (let L = map (\<lambda>r. ln (1 + r)) (filter (\<lambda>r. 0 < r) (map snd raws));
                        q = max (sort L ! ((99 * length L) div 100)) (1 / 10 ^ 6)
                    in min 1 (ln (1 + bs_raw_score a) / q))) \<and>
              (\<forall>b \<in> set rows. bs_raw_score b \<le> bs_raw_score a \<longrightarrow>
                 bs_normalized_score b \<le> bs_normalized_score a))"
proof -
  let ?L = "map (\<lambda>r. ln (1 + r)) (filter (\<lambda>r. 0 < r) (map snd raws))"
  let ?row = "\<lambda>q (n, r). \<lparr>bs_server_name = n, bs_raw_score = r,
                            bs_normalized_score = normalized_of q r\<rparr>"
  from normalize_backlink_scores_value [OF assms]
  obtain q where q: "backlink_q99 ?L = Inr q"
    and res: "normalize_backlink_scores raws = Inr (map (?row q) raws)"
    by blast
  from q have qpos: "0 < q" by (rule backlink_q99_pos)
  have names: "map (\<lambda>a. (bs_server_name a, bs_raw_score a)) (map (?row q) raws) = raws"
    by (induction raws) auto
  have each: "0 \<le> bs_normalized_score a \<and> bs_normalized_score a \<le> 1 \<and>
              (bs_normalized_score a = 0 \<longleftrightarrow> bs_raw_score a \<le> 0) \<and>
              (0 < bs_raw_score a \<longrightarrow>
                 bs_normalized_score a =
                   (let L = ?L; q = max (sort L ! ((99 * length L) div 100)) (1 / 10 ^ 6)
                    in min 1 (ln (1 + bs_raw_score a) / q))) \<and>
              (\<forall>b \<in> set (map (?row q) raws). bs_raw_score b \<le> bs_raw_score a \<longrightarrow>
                 bs_normalized_score b \<le> bs_normalized_score a)"
    if a: "a \<in> set (map (?row q) raws)" for a
  proof -
    from a obtain n r where nr: "(n, r) \<in> set raws" and a_eq: "a = ?row q (n, r)"
      by auto
    have norm: "bs_normalized_score a = normalized_of q r" and raw: "bs_raw_score a = r"
      using a_eq by simp_all
    have formula: "0 < r \<longrightarrow> normalized_of q r =
           (let L = ?L; q = max (sort L ! ((99 * length L) div 100)) (1 / 10 ^ 6)
            in min 1 (ln (1 + r) / q))"
    proof
      assume pos: "0 < r"
      with nr have "?L \<noteq> []" by (force simp: filter_empty_conv)
      with q have "q = max (sort ?L ! ((99 * length ?L) div 100)) (1 / 10 ^ 6)"
        by (simp add: backlink_q99_value q99_position_def)
      with pos show "normalized_of q r =
           (let L = ?L; q = max (sort L ! ((99 * length L) div 100)) (1 / 10 ^ 6)
            in min 1 (ln (1 + r) / q))"
        by (simp add: normalized_of_def Let_def)
    qed
    have mono: "bs_normalized_score b \<le> normalized_of q r"
      if "b \<in> set (map (?row q) raws)" "bs_raw_score b \<le> r" for b
    proof -
      from that obtain m s where "b = ?row q (m, s)" by auto
      with that qpos show ?thesis by (simp add: normalized_of_mono)
    qed
    show ?thesis
      using normalized_of_bounds [OF qpos, of r] normalized_of_zero_iff [OF qpos, of r]
        formula mono
      by (simp add: norm raw)
  qed
  show ?thesis
    using res names each by blast
qed

theorem backlink_normalisation_bounded_monotone_witness:
  "\<exists>rows. normalize_backlink_scores [(''a'', 0), (''b'', exp 1 - 1)] = Inr rows \<and>
      map bs_server_name rows = [''a'', ''b''] \<and>
      map bs_normalized_score rows = [0, 1]"
proof -
  have h: "\<forall>r \<in> snd ` set [(''a'', 0::real), (''b'', exp 1 - 1)]. -1 < r" by simp
  from backlink_normalisation_bounded_monotone [OF h]
  obtain rows
    where rows: "normalize_backlink_scores [(''a'', 0), (''b'', exp 1 - 1)] = Inr rows"
    by blast
  then have "rows = [\<lparr>bs_server_name = ''a'', bs_raw_score = 0, bs_normalized_score = 0\<rparr>,
                     \<lparr>bs_server_name = ''b'', bs_raw_score = exp 1 - 1,
                        bs_normalized_score = 1\<rparr>]"
    by (auto simp: normalize_backlink_scores_def math_log1p_def backlink_q99_def py_index_def
          q99_position_def normalize_one_def Let_def)
  with rows show ?thesis by simp
qed

subsection \<open>Market ranking\<close>

lemma get_q99_value:
  "get_q99 vals =
     Inr (if vals = [] then 1 else max (sort vals ! q99_position (length vals)) (1 / 10 ^ 6))"
  by (simp add: get_q99_def py_index_def Let_def q99_position_less)

lemma get_q99_pos: "get_q99 vals = Inr q \<Longrightarrow> 0 < q"
  by (auto simp: get_q99_value split: if_splits)

lemma raw_signals_defined:
  "well_formed_row r \<Longrightarrow> \<exists>d. raw_signals clk r = Inr d"
  by (simp add: raw_signals_def well_formed_row_def math_log1p_def math_log10_def Let_def)

lemma traverse_list_all2:
  "(\<And>x. x \<in> set xs \<Longrightarrow> \<exists>y. f x = Inr y \<and> P x y) \<Longrightarrow>
   \<exists>ys. traverse f xs = Inr ys \<and> list_all2 P xs ys"
proof (induction xs)
  case Nil
  then show ?case by simp
next
  case (Cons x xs)
  then obtain y where y: "f x = Inr y" "P x y" by force
  from Cons obtain ys where ys: "traverse f xs = Inr ys" "list_all2 P xs ys" by force
  with y show ?case by simp
qed

lemma raw_signals_list:
  assumes "\<forall>r \<in> set rows. well_formed_row r"
  shows "\<exists>ds. traverse (raw_signals clk) rows = Inr ds \<and> list_all2 (signals_of clk) rows ds"
proof (rule traverse_list_all2)
  fix r assume "r \<in> set rows"
  with assms have "well_formed_row r" by blast
  then show "\<exists>d. raw_signals clk r = Inr d \<and> signals_of clk r d"
    using raw_signals_defined [of r clk] by (simp add: signals_of_def)
qed

lemma signals_of_fields:
  assumes "signals_of clk r d"
  shows "rd_name d = sr_name r"
    and "rd_u_raw d = ln (1 + sr_usage_raw r)"
    and "rd_r_raw d = log 10 (1 + real_of_int (sr_stars r)) + log 10 (1 + real_of_int (sr_forks r))"
    and "rd_c_raw d = log 10 (1 + real_of_int (sr_downloads r))"
    and "rd_is_zero_auth d = (sr_auth_count r = 0)"
    and "rd_is_verified d =
           (lower (case sr_repo_owner r of None \<Rightarrow> [] | Some ow \<Rightarrow> ow) \<in> set TRUSTED_ORGS)"
    and "rd_activity d =
           (case sr_last_push r of
              None \<Rightarrow> 0.5
            | Some pushed_at \<Rightarrow>
                if pushed_at = [] then 0.5
                else (case clk pushed_at of
                        None \<Rightarrow> 0.5
                      | Some days \<Rightarrow> exp (- 0.5 * (real_of_int days / 365))))"
  using assms
  by (auto simp: signals_of_def raw_signals_def well_formed_row_def math_log1p_def
        math_log10_def Let_def)

lemma list_all2_map_eq:
  "list_all2 P xs ys \<Longrightarrow> (\<And>x y. x \<in> set xs \<Longrightarrow> P x y \<Longrightarrow> g y = f x) \<Longrightarrow> map g ys = map f xs"
  by (induction rule: list_all2_induct) auto

lemma compute_market_rankings_value:
  assumes wf: "\<forall>r \<in> set rows. well_formed_row r"
  shows "\<exists>ds qu qr qc.
           list_all2 (signals_of clk) rows ds \<and>
           get_q99 (map (\<lambda>r. ln (1 + sr_usage_raw r)) rows) = Inr qu \<and>
           get_q99 (map (\<lambda>r. log 10 (1 + real_of_int (sr_stars r))
                              + log 10 (1 + real_of_int (sr_forks r))) rows) = Inr qr \<and>
           get_q99 (map (\<lambda>r. log 10 (1 + real_of_int (sr_downloads r))) rows) = Inr qc \<and>
           0 < qu \<and> 0 < qr \<and> 0 < qc \<and>
           compute_market_rankings clk rows = Inr (map (rank_one qu qr qc) ds)"
proof -
  from raw_signals_list [OF wf] obtain ds
    where tr: "traverse (raw_signals clk) rows = Inr ds"
      and rel: "list_all2 (signals_of clk) rows ds"
    by blast
  have u: "map rd_u_raw ds = map (\<lambda>r. ln (1 + sr_usage_raw r)) rows"
    by (rule list_all2_map_eq [OF rel]) (use signals_of_fields in auto)
  have r: "map rd_r_raw ds = map (\<lambda>r. log 10 (1 + real_of_int (sr_stars r))
                              + log 10 (1 + real_of_int (sr_forks r))) rows"
    by (rule list_all2_map_eq [OF rel]) (use signals_of_fields in auto)
  have c: "map rd_c_raw ds = map (\<lambda>r. log 10 (1 + real_of_int (sr_downloads r))) rows"
    by (rule list_all2_map_eq [OF rel]) (use signals_of_fields in auto)
  obtain qu where qu: "get_q99 (map rd_u_raw ds) = Inr qu" by (simp add: get_q99_value)
  obtain qr where qr: "get_q99 (map rd_r_raw ds) = Inr qr" by (simp add: get_q99_value)
  obtain qc where qc: "get_q99 (map rd_c_raw ds) = Inr qc" by (simp add: get_q99_value)
  have "compute_market_rankings clk rows = Inr (map (rank_one qu qr qc) ds)"
    by (simp add: compute_market_rankings_def tr qu qr qc)
  with rel qu qr qc u r c get_q99_pos show ?thesis by metis
qed

lemma rank_one_fields:
  "mr_server_name (rank_one qu qr qc d) = rd_name d"
  "mr_usage_score (rank_one qu qr qc d) = min 1 (rd_u_raw d / qu)"
  "mr_reputation_score (rank_one qu qr qc d) = min 1 (rd_r_raw d / qr)"
  "mr_activity_score (rank_one qu qr qc d) = rd_activity d"
  "mr_reach_score (rank_one qu qr qc d) = min 1 (rd_c_raw d / qc)"
  "mr_total_score (rank_one qu qr qc d) =
     max 0 (min 1 (0.45 * min 1 (rd_u_raw d / qu) + 0.30 * min 1 (rd_r_raw d / qr)
                   + 0.15 * rd_activity d + 0.10 * min 1 (rd_c_raw d / qc)
                   + (if rd_is_zero_auth d then 0.05 else 0)
                   + (if rd_is_verified d then 0.10 else 0)))"
  by (simp_all add: rank_one_def Let_def)

text \<open>
  C3. For every server the ranker stores
  \<open>total_score = clamp(0.45*U + 0.30*R + 0.15*A + 0.10*C + bonuses)\<close> over the four stored
  pillars, where \<open>U\<close>, \<open>R\<close> and \<open>C\<close> are the raw signals divided by their 99th percentile
  and capped at 1, the bonuses are \<open>0.05\<close> for a server with no secret environment
  variable and \<open>0.10\<close> for a repository owner in \<open>TRUSTED_ORGS\<close>, and the clamp is to
  \<open>[0, 1]\<close>.
\<close>

theorem market_total_score_composite:
  assumes "\<forall>r \<in> set rows. well_formed_row r"
  shows "\<exists>ranks qu qr qc.
           compute_market_rankings clk rows = Inr ranks \<and>
           get_q99 (map (\<lambda>r. ln (1 + sr_usage_raw r)) rows) = Inr qu \<and>
           get_q99 (map (\<lambda>r. log 10 (1 + real_of_int (sr_stars r))
                              + log 10 (1 + real_of_int (sr_forks r))) rows) = Inr qr \<and>
           get_q99 (map (\<lambda>r. log 10 (1 + real_of_int (sr_downloads r))) rows) = Inr qc \<and>
           list_all2
             (\<lambda>r m.
                mr_server_name m = sr_name r \<and>
                mr_usage_score m = min 1 (ln (1 + sr_usage_raw r) / qu) \<and>
                mr_reputation_score m =
                  min 1 ((log 10 (1 + real_of_int (sr_stars r))
                          + log 10 (1 + real_of_int (sr_forks r))) / qr) \<and>
                mr_activity_score m =
                  (case sr_last_push r of
                     None \<Rightarrow> 0.5
                   | Some pushed_at \<Rightarrow>
                       if pushed_at = [] then 0.5
                       else (case clk pushed_at of
                               None \<Rightarrow> 0.5
                             | Some days \<Rightarrow> exp (- 0.5 * (real_of_int days / 365)))) \<and>
                mr_reach_score m = min 1 (log 10 (1 + real_of_int (sr_downloads r)) / qc) \<and>
                mr_total_score m =
                  max 0 (min 1 (0.45 * mr_usage_score m + 0.30 * mr_reputation_score m
                                + 0.15 * mr_activity_score m + 0.10 * mr_reach_score m
                                + (if sr_auth_count r = 0 then 0.05 else 0)
                                + (if lower (case sr_repo_owner r of None \<Rightarrow> [] | Some ow \<Rightarrow> ow)
                                        \<in> set TRUSTED_ORGS then 0.10 else 0))) \<and>
                0 \<le> mr_total_score m \<and> mr_total_score m \<le> 1)
             rows ranks"
proof -
  from compute_market_rankings_value [OF assms, of clk]
  obtain ds qu qr qc where rel: "list_all2 (signals_of clk) rows ds"
    and qs: "get_q99 (map (\<lambda>r. ln (1 + sr_usage_raw r)) rows) = Inr qu"
      "get_q99 (map (\<lambda>r. log 10 (1 + real_of_int (sr_stars r))
                              + log 10 (1 + real_of_int (sr_forks r))) rows) = Inr qr"
      "get_q99 (map (\<lambda>r. log 10 (1 + real_of_int (sr_downloads r))) rows) = Inr qc"
    and res: "compute_market_rankings clk rows = Inr (map (rank_one qu qr qc) ds)"
    by blast
  let ?P = "\<lambda>r m.
                mr_server_name m = sr_name r \<and>
                mr_usage_score m = min 1 (ln (1 + sr_usage_raw r) / qu) \<and>
                mr_reputation_score m =
                  min 1 ((log 10 (1 + real_of_int (sr_stars r))
                          + log 10 (1 + real_of_int (sr_forks r))) / qr) \<and>
                mr_activity_score m =
                  (case sr_last_push r of
                     None \<Rightarrow> 0.5
                   | Some pushed_at \<Rightarrow>
                       if pushed_at = [] then 0.5
                       else (case clk pushed_at of
                               None \<Rightarrow> 0.5
                             | Some days \<Rightarrow> exp (- 0.5 * (real_of_int days / 365)))) \<and>
                mr_reach_score m = min 1 (log 10 (1 + real_of_int (sr_downloads r)) / qc) \<and>
                mr_total_score m =
                  max 0 (min 1 (0.45 * mr_usage_score m + 0.30 * mr_reputation_score m
                                + 0.15 * mr_activity_score m + 0.10 * mr_reach_score m
                                + (if sr_auth_count r = 0 then 0.05 else 0)
                                + (if lower (case sr_repo_owner r of None \<Rightarrow> [] | Some ow \<Rightarrow> ow)
                                        \<in> set TRUSTED_ORGS then 0.10 else 0))) \<and>
                0 \<le> mr_total_score m \<and> mr_total_score m \<le> 1"
  have "list_all2 (\<lambda>r d. ?P r (rank_one qu qr qc d)) rows ds"
    using rel
  proof (rule list_all2_mono)
    fix r d assume "signals_of clk r d"
    from signals_of_fields [OF this] show "?P r (rank_one qu qr qc d)"
      by (simp add: rank_one_fields)
  qed
  then have "list_all2 ?P rows (map (rank_one qu qr qc) ds)"
    by (simp add: list_all2_map2)
  with res qs show ?thesis by blast
qed

lemma lower_microsoft: "lower ''Microsoft'' = ''microsoft''"
  by (simp add: lower_def lower_char_def)

theorem market_total_score_composite_witness:
  "\<exists>ranks. compute_market_rankings (\<lambda>p. None)
      [\<lparr>sr_name = ''acme/tool'', sr_usage_raw = 0, sr_stars = 0, sr_forks = 0,
        sr_last_push = None, sr_downloads = 0, sr_auth_count = 1,
        sr_repo_owner = Some ''acme''\<rparr>] = Inr ranks \<and>
     map mr_total_score ranks = [3 / 40]"
proof -
  let ?rows = "[\<lparr>sr_name = ''acme/tool'', sr_usage_raw = 0, sr_stars = 0, sr_forks = 0,
        sr_last_push = None, sr_downloads = 0, sr_auth_count = 1,
        sr_repo_owner = Some ''acme''\<rparr>]"
  have wf: "\<forall>r \<in> set ?rows. well_formed_row r"
    by (simp add: well_formed_row_def)
  from market_total_score_composite [OF wf, of "\<lambda>p. None"]
  obtain ranks where ranks: "compute_market_rankings (\<lambda>p. None) ?rows = Inr ranks"
    by blast
  have "lower ''acme'' \<notin> set TRUSTED_ORGS"
    by (simp add: lower_def lower_char_def TRUSTED_ORGS_def)
  with ranks have "map mr_total_score ranks = [3 / 40]"
    by (auto simp: compute_market_rankings_def raw_signals_def math_log1p_def math_log10_def
          get_q99_def py_index_def q99_position_def rank_one_def Let_def)
  with ranks show ?thesis by simp
qed

text \<open>
  C4 as stated fails: a server with no backlinks, no downloads, no stars and no push date,
  owned by a trusted organisation and without secrets, scores \<open>0.15 * 0.5 + 0.05 + 0.10 =
  0.225\<close>, above \<open>0.15\<close>.
\<close>

theorem zero_usage_reach_counterexample:
  "compute_market_rankings (\<lambda>p. None)
      [\<lparr>sr_name = ''ms/tool'', sr_usage_raw = 0, sr_stars = 0, sr_forks = 0,
        sr_last_push = None, sr_downloads = 0, sr_auth_count = 0,
        sr_repo_owner = Some ''Microsoft''\<rparr>] =
     Inr [\<lparr>mr_server_name = ''ms/tool'', mr_total_score = 9 / 40, mr_usage_score = 0,
           mr_reputation_score = 0, mr_activity_score = 1 / 2, mr_reach_score = 0,
           mr_is_zero_auth = True, mr_is_verified = True\<rparr>] \<and>
   \<not> (9 / 40 \<le> (0.15 :: real))"
proof -
  have "lower ''Microsoft'' \<in> set TRUSTED_ORGS"
    by (simp add: lower_microsoft TRUSTED_ORGS_def)
  then show ?thesis
    by (simp add: compute_market_rankings_def raw_signals_def math_log1p_def math_log10_def
          get_q99_def py_index_def q99_position_def rank_one_def Let_def)
qed

lemma bonus_bound:
  fixes x a :: real
  shows "x \<le> 1 \<Longrightarrow> a \<le> 1 \<Longrightarrow>
         0.30 * x + 0.15 * a + (if z then 0.05 else 0) + (if v then 0.10 else 0) \<le> 0.60"
  by (cases z; cases v; simp)

text \<open>
  C4, as amended. A server with zero backlink raw score and zero downloads has usage and
  reach pillars 0, and its total score is \<open>clamp(0.30*R + 0.15*A + bonuses)\<close>: the
  reputation and activity pillars still count. It lies in \<open>[0, 1]\<close>, and is at most
  \<open>0.60\<close> when the activity pillar is at most 1.
\<close>

theorem zero_usage_reach_total_score:
  assumes "\<forall>r \<in> set rows. well_formed_row r"
  shows "\<exists>ranks.
           compute_market_rankings clk rows = Inr ranks \<and>
           list_all2
             (\<lambda>r m.
                sr_usage_raw r = 0 \<and> sr_downloads r = 0 \<longrightarrow>
                  mr_usage_score m = 0 \<and> mr_reach_score m = 0 \<and>
                  mr_total_score m =
                    max 0 (min 1 (0.30 * mr_reputation_score m + 0.15 * mr_activity_score m
                                  + (if sr_auth_count r = 0 then 0.05 else 0)
                                  + (if lower (case sr_repo_owner r of None \<Rightarrow> [] | Some ow \<Rightarrow> ow)
                                          \<in> set TRUSTED_ORGS then 0.10 else 0))) \<and>
                  0 \<le> mr_total_score m \<and> mr_total_score m \<le> 1 \<and>
                  (mr_activity_score m \<le> 1 \<longrightarrow> mr_total_score m \<le> 0.60))
             rows ranks"
proof -
  from compute_market_rankings_value [OF assms, of clk]
  obtain ds qu qr qc where rel: "list_all2 (signals_of clk) rows ds"
    and pos: "0 < qu" "0 < qr" "0 < qc"
    and res: "compute_market_rankings clk rows = Inr (map (rank_one qu qr qc) ds)"
    by blast
  let ?P = "\<lambda>r m.
                sr_usage_raw r = 0 \<and> sr_downloads r = 0 \<longrightarrow>
                  mr_usage_score m = 0 \<and> mr_reach_score m = 0 \<and>
                  mr_total_score m =
                    max 0 (min 1 (0.30 * mr_reputation_score m + 0.15 * mr_activity_score m
                                  + (if sr_auth_count r = 0 then 0.05 else 0)
                                  + (if lower (case sr_repo_owner r of None \<Rightarrow> [] | Some ow \<Rightarrow> ow)
                                          \<in> set TRUSTED_ORGS then 0.10 else 0))) \<and>
                  0 \<le> mr_total_score m \<and> mr_total_score m \<le> 1 \<and>
                  (mr_activity_score m \<le> 1 \<longrightarrow> mr_total_score m \<le> 0.60)"
  have "list_all2 (\<lambda>r d. ?P r (rank_one qu qr qc d)) rows ds"
    using rel
  proof (rule list_all2_mono)
    fix r d assume sig: "signals_of clk r d"
    show "?P r (rank_one qu qr qc d)"
    proof
      assume z: "sr_usage_raw r = 0 \<and> sr_downloads r = 0"
      have u0: "rd_u_raw d = 0" and c0: "rd_c_raw d = 0"
        using signals_of_fields(2,4) [OF sig] z by simp_all
      let ?m = "rank_one qu qr qc d"
      define T where "T = 0.30 * mr_reputation_score ?m + 0.15 * mr_activity_score ?m
                            + (if sr_auth_count r = 0 then 0.05 else 0)
                            + (if lower (case sr_repo_owner r of None \<Rightarrow> [] | Some ow \<Rightarrow> ow)
                                    \<in> set TRUSTED_ORGS then 0.10 else 0)"
      have rep: "mr_reputation_score ?m \<le> 1" by (simp add: rank_one_fields)
      have tot: "mr_total_score ?m = max 0 (min 1 T)"
        using signals_of_fields(5,6) [OF sig]
        by (simp add: rank_one_fields u0 c0 T_def)
      have capped: "mr_total_score ?m \<le> 0.60" if "mr_activity_score ?m \<le> 1"
      proof -
        from bonus_bound [OF rep that] have "T \<le> 0.60" by (simp only: T_def)
        then show ?thesis by (simp add: tot)
      qed
      have u: "mr_usage_score ?m = 0" and c: "mr_reach_score ?m = 0"
        by (simp_all add: rank_one_fields u0 c0)
      have range: "0 \<le> mr_total_score ?m" "mr_total_score ?m \<le> 1"
        by (simp_all add: tot)
      from u c tot range capped
      show "mr_usage_score ?m = 0 \<and> mr_reach_score ?m = 0 \<and>
            mr_total_score ?m =
              max 0 (min 1 (0.30 * mr_reputation_score ?m + 0.15 * mr_activity_score ?m
                            + (if sr_auth_count r = 0 then 0.05 else 0)
                            + (if lower (case sr_repo_owner r of None \<Rightarrow> [] | Some ow \<Rightarrow> ow)
                                    \<in> set TRUSTED_ORGS then 0.10 else 0))) \<and>
            0 \<le> mr_total_score ?m \<and> mr_total_score ?m \<le> 1 \<and>
            (mr_activity_score ?m \<le> 1 \<longrightarrow> mr_total_score ?m \<le> 0.60)"
        unfolding T_def by blast
    qed
  qed
  then have "list_all2 ?P rows (map (rank_one qu qr qc) ds)"
    by (simp add: list_all2_map2)
  with res show ?thesis by blast
qed

theorem zero_usage_reach_total_score_witness:
  "\<exists>ranks. compute_market_rankings (\<lambda>p. None)
      [\<lparr>sr_name = ''solo'', sr_usage_raw = 0, sr_stars = 0, sr_forks = 0,
        sr_last_push = None, sr_downloads = 0, sr_auth_count = 0,
        sr_repo_owner = None\<rparr>] = Inr ranks \<and>
     map mr_total_score ranks = [1 / 8]"
proof -
  let ?rows = "[\<lparr>sr_name = ''solo'', sr_usage_raw = 0, sr_stars = 0, sr_forks = 0,
        sr_last_push = None, sr_downloads = 0, sr_auth_count = 0,
        sr_repo_owner = None\<rparr>]"
  have wf: "\<forall>r \<in> set ?rows. well_formed_row r"
    by (simp add: well_formed_row_def)
  from zero_usage_reach_total_score [OF wf, of "\<lambda>p. None"]
  obtain ranks where ranks: "compute_market_rankings (\<lambda>p. None) ?rows = Inr ranks"
    by blast
  have "lower [] \<notin> set TRUSTED_ORGS"
    by (simp add: lower_def TRUSTED_ORGS_def)
  with ranks have "map mr_total_score ranks = [1 / 8]"
    by (auto simp: compute_market_rankings_def raw_signals_def math_log1p_def math_log10_def
          get_q99_def py_index_def q99_position_def rank_one_def Let_def)
  with ranks show ?thesis by simp
qed

subsection \<open>Hybrid search\<close>






















subsection \<open>Tool listing\<close>

lemma servers_named:
  "distinct (map s_name ss) \<Longrightarrow>
   filter (\<lambda>s. s_name s = n) ss =
     (case find (\<lambda>s. s_name s = n) ss of None \<Rightarrow> [] | Some s \<Rightarrow> [s])"
proof (induction ss)
  case Nil
  then show ?case by simp
next
  case (Cons s ss)
  show ?case
  proof (cases "s_name s = n")
    case True
    with Cons.prems have "n \<notin> s_name ` set ss" by auto
    then have "filter (\<lambda>s. s_name s = n) ss = []"
      by (auto simp: filter_empty_conv)
    with True show ?thesis by simp
  next
    case False
    with Cons show ?thesis by simp
  qed
qed

lemma find_server_name:
  "find (\<lambda>s. s_name s = n) ss = Some s \<Longrightarrow> s_name s = n"
  by (auto simp: find_Some_iff)

lemma joined_rows:
  fixes f :: "tool_row \<Rightarrow> server_row \<Rightarrow> tool_full"
  assumes d: "distinct (map s_name ss)"
    and fs: "\<And>t s. vt_server_name (f t s) = s_name s"
  shows "filter (\<lambda>vt. vt_server_name vt = n)
           (concat (map (\<lambda>t. map (f t) (filter (\<lambda>s. t_server_name t = s_name s) ss)) ts)) =
         (case find (\<lambda>s. s_name s = n) ss of
            None \<Rightarrow> []
          | Some s \<Rightarrow> map (\<lambda>t. f t s) (filter (\<lambda>t. t_server_name t = n) ts))"
proof (induction ts)
  case Nil
  then show ?case by (simp split: option.splits)
next
  case (Cons t ts)
  have one: "filter (\<lambda>vt. vt_server_name vt = n)
               (map (f t) (filter (\<lambda>s. t_server_name t = s_name s) ss)) =
             (if t_server_name t = n then map (f t) (filter (\<lambda>s. s_name s = n) ss) else [])"
  proof (cases "t_server_name t = n")
    case True
    have "filter (\<lambda>vt. vt_server_name vt = n) (map (f t) (filter (\<lambda>s. s_name s = n) ss)) =
          map (f t) (filter (\<lambda>s. s_name s = n) ss)"
      by (rule filter_True) (auto simp: fs)
    with True show ?thesis by (simp add: eq_commute)
  next
    case False
    then have "filter (\<lambda>vt. vt_server_name vt = n)
                 (map (f t) (filter (\<lambda>s. t_server_name t = s_name s) ss)) = []"
      by (auto simp: filter_empty_conv fs)
    with False show ?thesis by simp
  qed
  show ?case
    by (simp add: one Cons.IH servers_named [OF d] split: option.splits)
qed

lemma v_tools_full_server:
  assumes d: "distinct (map s_name (servers st))"
  shows "filter (\<lambda>vt. vt_server_name vt = n) (v_tools_full st) =
         (case find (\<lambda>s. s_name s = n) (servers st) of
            None \<Rightarrow> []
          | Some s \<Rightarrow>
              map (\<lambda>t. \<lparr>vt_tool_id = t_id t, vt_tool_name = t_tool_name t, vt_title = t_title t,
                        vt_description = t_description t, vt_input_schema = t_input_schema t,
                        vt_server_name = n, vt_server_description = s_description s,
                        vt_requires_auth =
                          (\<exists>ev \<in> set (environment_variables st).
                             ev_server_name ev = n \<and> ev_is_secret ev)\<rparr>)
                  (filter (\<lambda>t. t_server_name t = n) (tools st)))"
proof -
  define f :: "tool_row \<Rightarrow> server_row \<Rightarrow> tool_full" where "f = (\<lambda>t s.
          \<lparr>vt_tool_id = t_id t, vt_tool_name = t_tool_name t, vt_title = t_title t,
           vt_description = t_description t, vt_input_schema = t_input_schema t,
           vt_server_name = s_name s, vt_server_description = s_description s,
           vt_requires_auth =
             (length (filter (\<lambda>ev. ev_server_name ev = s_name s \<and> ev_is_secret ev)
                        (environment_variables st)) > 0)\<rparr>)"
  have fs: "vt_server_name (f t s) = s_name s" for t s by (simp add: f_def)
  have view: "v_tools_full st =
      concat (map (\<lambda>t. map (f t) (filter (\<lambda>s. t_server_name t = s_name s) (servers st)))
                  (tools st))"
    by (simp add: v_tools_full_def f_def)
  show ?thesis
  proof (cases "find (\<lambda>s. s_name s = n) (servers st)")
    case None
    with joined_rows [of "servers st" f n "tools st", OF d fs] show ?thesis
      by (simp add: view)
  next
    case (Some s)
    from find_server_name [OF Some] have n: "s_name s = n" .
    from joined_rows [of "servers st" f n "tools st", OF d fs] Some
    have "filter (\<lambda>vt. vt_server_name vt = n) (v_tools_full st) =
          map (\<lambda>t. f t s) (filter (\<lambda>t. t_server_name t = n) (tools st))"
      by (simp add: view)
    with Some n show ?thesis
      by (auto simp: f_def filter_empty_conv)
  qed
qed

text \<open>
  C10, as amended. For every server name, the response of \<^verbatim>\<open>GET /servers/<name>/tools\<close> is
  an object \<open>{server, tools}\<close> in which \<open>tools\<close> lists, in table order, one object per tool
  of that server (not a string): server names being unique, the object of a tool holds its
  \<open>tool_id\<close>, its \<open>name\<close>, its \<open>title\<close> and \<open>description\<close> (null when absent), its
  \<open>input_schema\<close> parsed from the stored text (null when absent, empty or unparseable),
  \<open>requires_auth\<close> (whether the server has a secret environment variable) and \<open>server\<close>, an
  object of the server's \<open>name\<close> and \<open>description\<close>. The list is empty for a name that is
  no server's.
\<close>

theorem list_server_tools_objects:
  assumes "distinct (map s_name (servers st))"
  shows "list_server_tools st loads name =
     JObj [(''server'', JStr name),
           (''tools'',
            JArr (map (\<lambda>t.
                JObj [(''tool_id'', JInt (t_id t)),
                      (''name'', JStr (t_tool_name t)),
                      (''title'', (case t_title t of None \<Rightarrow> JNull | Some s \<Rightarrow> JStr s)),
                      (''description'',
                         (case t_description t of None \<Rightarrow> JNull | Some s \<Rightarrow> JStr s)),
                      (''input_schema'',
                         (case t_input_schema t of
                            None \<Rightarrow> JNull
                          | Some txt \<Rightarrow>
                              if txt = [] then JNull
                              else (case loads txt of None \<Rightarrow> JNull | Some v \<Rightarrow> v))),
                      (''requires_auth'',
                         JBool (\<exists>ev \<in> set (environment_variables st).
                                  ev_server_name ev = name \<and> ev_is_secret ev)),
                      (''server'',
                         JObj [(''name'', JStr name),
                               (''description'',
                                  (case find (\<lambda>s. s_name s = name) (servers st) of
                                     None \<Rightarrow> JNull
                                   | Some s \<Rightarrow>
                                       (case s_description s of
                                          None \<Rightarrow> JNull
                                        | Some d \<Rightarrow> JStr d)))])])
              (filter (\<lambda>t. t_server_name t = name \<and> name \<in> s_name ` set (servers st))
                      (tools st))))]"
proof (cases "find (\<lambda>s. s_name s = name) (servers st)")
  case None
  then have "name \<notin> s_name ` set (servers st)" by (auto simp: find_None_iff)
  then have "filter (\<lambda>t. t_server_name t = name \<and> name \<in> s_name ` set (servers st))
               (tools st) = []"
    by (auto simp: filter_empty_conv)
  with None show ?thesis
    by (simp add: list_server_tools_def get_tools_for_server_def
          v_tools_full_server [OF assms] Let_def)
next
  case (Some s)
  then have "name \<in> s_name ` set (servers st)"
    by (auto simp: find_Some_iff)
  then have "filter (\<lambda>t. t_server_name t = name \<and> name \<in> s_name ` set (servers st))
               (tools st) = filter (\<lambda>t. t_server_name t = name) (tools st)"
    by simp
  with Some show ?thesis
    by (simp add: list_server_tools_def get_tools_for_server_def
          v_tools_full_server [OF assms] Let_def tool_dict_def json_text_def
          parse_input_schema_def o_def)
qed

lemma echo_store_listing:
  "list_server_tools echo_store (\<lambda>s. None) ''srv'' =
     JObj [(''server'', JStr ''srv''),
           (''tools'',
            JArr [JObj [(''tool_id'', JInt 7), (''name'', JStr ''echo''), (''title'', JNull),
                        (''description'', JStr ''Echo the input''), (''input_schema'', JNull),
                        (''requires_auth'', JBool False),
                        (''server'', JObj [(''name'', JStr ''srv''), (''description'', JNull)])]])]"
  by (simp add: list_server_tools_def get_tools_for_server_def v_tools_full_def echo_store_def
        tool_dict_def json_text_def parse_input_schema_def Let_def)

theorem list_server_tools_objects_witness:
  "list_server_tools echo_store (\<lambda>s. None) ''srv'' =
     JObj [(''server'', JStr ''srv''),
           (''tools'',
            JArr [JObj [(''tool_id'', JInt 7), (''name'', JStr ''echo''), (''title'', JNull),
                        (''description'', JStr ''Echo the input''), (''input_schema'', JNull),
                        (''requires_auth'', JBool False),
                        (''server'', JObj [(''name'', JStr ''srv''), (''description'', JNull)])]])]"
proof -
  have d: "distinct (map s_name (servers echo_store))"
    by (simp add: echo_store_def)
  from list_server_tools_objects [OF d, of "\<lambda>s. None" "''srv''"]
  show ?thesis
    by (simp add: echo_store_def)
qed

text \<open>
  C10 as stated fails: for a server with the single tool \<open>echo\<close>, \<open>tools\<close> is not the list
  of names \<open>["echo"]\<close> but a list holding the tool's object.
\<close>

theorem list_server_tools_strings_counterexample:
  "list_server_tools echo_store (\<lambda>s. None) ''srv'' \<noteq>
     JObj [(''server'', JStr ''srv''), (''tools'', JArr [JStr ''echo''])]"
  by (simp add: echo_store_listing)


subsection \<open>Retrieval\<close>




















subsection \<open>Enrichment status\<close>

lemma lower_package_not_found: "lower ''package_not_found'' = ''package_not_found''"
  by (simp add: lower_def lower_char_def)

lemma categorize_package_not_found:
  "categorize_enrichment_failure None (Some ''package_not_found'') =
     (''transient_failure'', ''unknown'')"
  by (simp add: categorize_enrichment_failure_def lower_package_not_found Let_def)

lemma enrich_github_status:
  "enrichment_status (enrich_github p f rows conn) = enrichment_status conn"
  by (induction p f rows conn rule: enrich_github.induct) (auto split: option.splits)

text \<open>
  C7. After the libraries.io worker has processed a candidate whose package is missing, the
  status row it wrote is \<open>transient_failure\<close> with reason \<open>unknown\<close>: the worker reports
  \<open>package_not_found\<close>, which the classifier does not recognise. After the GitHub worker
  has processed a candidate whose fetch failed, there is no status row for it.
\<close>

theorem missing_package_status_row:
  "enrichment_status
     (enrich_dependents (\<lambda>platform p. None) ''t1'' [(''srv'', ''left-pad-mcp'', ''npm'')] empty_db)
     (''srv'', ''dependents'') =
     Some \<lparr>es_status = ''transient_failure'', es_failure_reason = Some ''unknown'',
           es_last_attempted_at = ''t1'', es_retry_count = 1\<rparr> \<and>
   enrichment_status
     (enrich_github (\<lambda>u. Some (''acme'', ''tool'')) (\<lambda>r. None)
        [(''srv'', ''https://github.com/acme/tool'')] empty_db) (''srv'', ''github'') = None"
  by (simp add: update_enrichment_status_def categorize_package_not_found empty_db_def Let_def)

subsection \<open>Placeholder resolution\<close>

lemma split_close_text: "split_close s = Some (body, rest) \<Longrightarrow> body @ CHR ''}'' # rest = s"
  by (induction s arbitrary: body) (auto split: if_splits option.splits)

lemma starts_with_append: "starts_with p s \<Longrightarrow> p @ drop (length p) s = s"
  by (induction p s rule: starts_with.induct) auto

lemma match_placeholder_text:
  assumes "match_placeholder s = Some (v, matched, rest)"
  shows "matched @ rest = s"
proof -
  from assms have sw: "starts_with ''${'' s"
    by (auto simp: match_placeholder_def split: if_splits)
  from assms obtain body where sc: "split_close (drop 2 s) = Some (body, rest)"
    and m: "matched = ''${'' @ body @ ''}''"
    by (auto simp: match_placeholder_def Let_def split: if_splits option.splits)
  from starts_with_append [OF sw] have "''${'' @ drop 2 s = s"
    by (simp add: numeral_2_eq_2)
  with split_close_text [OF sc] m show ?thesis by (metis append.assoc append_Cons append_Nil)
qed

lemma re_sub_unset:
  "\<forall>v \<in> set (scan_names s). env v = None \<Longrightarrow> re_sub env s = s"
proof (induction s rule: scan_names.induct)
  case 1
  then show ?case by simp
next
  case (2 c cs)
  show ?case
  proof (cases "match_placeholder (c # cs)")
    case None
    with 2 show ?thesis by simp
  next
    case (Some m)
    then obtain v matched rest where m: "m = (v, matched, rest)" by (cases m) auto
    with Some 2 have "env v = None" and "re_sub env rest = rest" by auto
    with Some m match_placeholder_text [of "c # cs" v matched rest] show ?thesis by simp
  qed
qed

lemma resolve_str_unset:
  "\<forall>v \<in> set (referenced_names t). env v = None \<Longrightarrow> resolve_str env t = t"
  by (auto simp: resolve_str_def referenced_names_def re_sub_unset)

text \<open>
  C9, as amended. Placeholder resolution is idempotent on a string whenever no placeholder
  of the once-resolved string names a set variable: then resolving twice gives the same
  string as resolving once. Values that are neither strings, lists nor dicts pass through
  unchanged.
\<close>

theorem resolve_env_vars_idempotent:
  assumes "\<forall>v \<in> set (referenced_names (resolve_str env s)). env v = None"
  shows "resolve_env_vars env (resolve_env_vars env (JStr s)) = resolve_env_vars env (JStr s) \<and>
         resolve_env_vars env JNull = JNull \<and>
         resolve_env_vars env (JBool b) = JBool b \<and>
         resolve_env_vars env (JInt i) = JInt i \<and>
         resolve_env_vars env (JFloat x) = JFloat x"
  using assms by (simp add: resolve_str_unset)

lemma bearer_resolved: "resolve_str token_env ''Bearer ${TOK}'' = ''Bearer abc''"
  by (simp add: resolve_str_def match_placeholder_def token_env_def Let_def)

lemma bearer_names: "referenced_names ''Bearer abc'' = []"
  by (simp add: referenced_names_def match_placeholder_def)

theorem resolve_env_vars_idempotent_witness:
  "resolve_env_vars token_env (JStr ''Bearer ${TOK}'') = JStr ''Bearer abc'' \<and>
   resolve_env_vars token_env (resolve_env_vars token_env (JStr ''Bearer ${TOK}'')) =
     JStr ''Bearer abc''"
proof -
  have a: "\<forall>v \<in> set (referenced_names (resolve_str token_env ''Bearer ${TOK}'')).
             token_env v = None"
    by (simp add: bearer_resolved bearer_names)
  from resolve_env_vars_idempotent [OF a] show ?thesis
    by (simp add: bearer_resolved)
qed

text \<open>
  C9 as stated fails: with \<open>A\<close> set to \<^verbatim>\<open>${B}\<close> and \<open>B\<close> set to \<open>x\<close>, every variable
  referenced in \<^verbatim>\<open>${A}\<close> is set, yet one resolution gives \<^verbatim>\<open>${B}\<close> and two give \<open>x\<close>.
\<close>

theorem resolve_env_vars_chain_counterexample:
  "referenced_names ''${A}'' = [''A''] \<and>
   chained_env ''A'' = Some ''${B}'' \<and>
   resolve_env_vars chained_env (JStr ''${A}'') = JStr ''${B}'' \<and>
   resolve_env_vars chained_env (resolve_env_vars chained_env (JStr ''${A}'')) = JStr ''x''"
  by (simp add: resolve_str_def referenced_names_def match_placeholder_def chained_env_def Let_def)

subsection \<open>Invocation gateway\<close>












end
